theory Spec2Isabelle
  imports Complex_Main "HOL-Library.Multiset" "HOL-Library.Sublist"
begin

section \<open>Configuration lookups (analysis/data\_loader.py)\<close>

text \<open>
  A Python float is read as the real number it denotes, and comparisons of floats are
  exact. Integer literals that sit in the same tuples and lists as floats are read as
  reals too. A dictionary literal is an association list in the order it is written, and
  \<open>d.get(k, default)\<close> is a lookup in it with the default on a miss.
\<close>

definition dict_get :: "('k \<times> 'v) list \<Rightarrow> 'k \<Rightarrow> 'v \<Rightarrow> 'v" where
  "dict_get d k dflt = (case map_of d k of None \<Rightarrow> dflt | Some v \<Rightarrow> v)"

definition labels :: "(string \<times> string) list" where
  "labels =
     [(''low'', ''0.2-0.5 mm/hr''),
      (''moderate'', ''0.5-1 mm/hr''),
      (''other'', ''>1 mm/hr''),
      (''low_moderate'', ''0.2-1 mm/hr''),
      (''all'', ''All intensities'')]"

definition get_intensity_label :: "string \<Rightarrow> string" where
  "get_intensity_label intensity_key = dict_get labels intensity_key intensity_key"

type_synonym axis_limits = "(real \<times> real) \<times> real list"

definition limits_urban_rural :: "(string \<times> axis_limits) list" where
  "limits_urban_rural =
     [(''low'', ((6.8, 9.8), [7, 8, 9])),
      (''moderate'', ((5, 8), [5, 6, 7, 8])),
      (''other'', ((8, 16), [8, 10, 12, 14, 16])),
      (''low_moderate'', ((12, 18), [12, 14, 16, 18])),
      (''all'', ((20, 35), [20, 25, 30, 35]))]"

definition limits_turban :: "(string \<times> axis_limits) list" where
  "limits_turban =
     [(''low'', ((2.8, 4.2), [3.0, 3.5, 4.0])),
      (''moderate'', ((0.9, 1.3), [0.9, 1.0, 1.1, 1.2, 1.3])),
      (''other'', ((0.3, 0.7), [0.3, 0.4, 0.5, 0.6, 0.7])),
      (''low_moderate'', ((3.5, 5.5), [3.5, 4.0, 4.5, 5.0, 5.5])),
      (''all'', ((4, 7), [4, 5, 6, 7]))]"

definition get_y_axis_limits :: "string \<Rightarrow> string \<Rightarrow> axis_limits" where
  "get_y_axis_limits intensity_key data_type =
     (let limits = (if data_type = ''urban_rural'' then limits_urban_rural else limits_turban)
      in dict_get limits intensity_key ((0, 10), [0, 2, 4, 6, 8, 10]))"


section \<open>The map panel (analysis/figure1\_components.py, composite\_figure1.py)\<close>

text \<open>
  A spatial array has one row \<open>(lat, lon, value)\<close> per city. The exceptions the map
  functions can raise are values of \<open>error\<close>: \<open>KeyError\<close> from a dictionary and
  \<open>ZeroDivisionError\<close> from \<open>/\<close>. \<open>DegenerateInputError\<close> is the error the
  specification names for an empty dataset; no function of the source raises it.
\<close>

datatype error = KeyError string | ZeroDivisionError | DegenerateInputError

type_synonym row = "real \<times> real \<times> real"

datatype color = Hex string | RGB real real real

text \<open>The colour table, the same in \<open>data_loader.py\<close> and \<open>composite_figure1.py\<close>.\<close>

definition COLORS :: "string \<rightharpoonup> color" where
  "COLORS = map_of
     [(''urban'', Hex ''#D32F2F''),
      (''rural'', Hex ''#B8860B''),
      (''urban_only'', Hex ''#2E8B57''),
      (''enhance_strong'', RGB (255 / 255) (120 / 255) (130 / 255)),
      (''enhance_weak'', RGB (255 / 255) (179 / 255) (186 / 255)),
      (''suppress_weak'', RGB (180 / 255) (210 / 255) (100 / 255)),
      (''suppress_strong'', RGB (120 / 255) (200 / 255) (150 / 255))]"

text \<open>\<open>d[k]\<close> raises KeyError on a missing key.\<close>

definition getitem :: "(string \<rightharpoonup> 'c) \<Rightarrow> string \<Rightarrow> error + 'c" where
  "getitem d k = (case d k of None \<Rightarrow> Inl (KeyError k) | Some c \<Rightarrow> Inr c)"

text \<open>\<open>a[:, 2]\<close>: the value column.\<close>

definition column2 :: "row list \<Rightarrow> real list" where
  "column2 a = map (\<lambda>(lat, lon, v). v) a"

text \<open>
  \<open>v.argsort()\<close>: the indices that sort \<open>v\<close> ascending. numpy does not fix the order
  of the indices of equal values; the model takes them in their original order.
\<close>

definition argsort :: "real list \<Rightarrow> nat list" where
  "argsort v = map snd (sort_key fst (zip v [0..<length v]))"

text \<open>
  \<open>a[idx]\<close> with an index array: a new array holding the rows of \<open>a\<close> at the indices,
  in the order of \<open>idx\<close>. The indices that \<open>argsort\<close> returns are all in range.
\<close>

definition take_rows :: "'a list \<Rightarrow> nat list \<Rightarrow> 'a list" where
  "take_rows a idx = map (\<lambda>i. a ! i) idx"

text \<open>
  One iteration of the colouring loop, on the pair of the list \<open>colors\<close> and the counter
  \<open>enhancement_count\<close>.
\<close>

definition color_step ::
  "(string \<rightharpoonup> 'c) \<Rightarrow> real \<Rightarrow> 'c list \<times> nat \<Rightarrow> error + 'c list \<times> nat" where
  "color_step colors_dict v acc =
     (case acc of (colors, enhancement_count) \<Rightarrow>
        if v < - 0.1 then
          (case getitem colors_dict ''enhance_strong'' of
             Inl e \<Rightarrow> Inl e
           | Inr c \<Rightarrow> Inr (colors @ [c], enhancement_count))
        else if v < 0 then
          (case getitem colors_dict ''enhance_weak'' of
             Inl e \<Rightarrow> Inl e
           | Inr c \<Rightarrow> Inr (colors @ [c], enhancement_count))
        else if v < 0.1 then
          (case getitem colors_dict ''suppress_weak'' of
             Inl e \<Rightarrow> Inl e
           | Inr c \<Rightarrow> Inr (colors @ [c], enhancement_count + 1))
        else
          (case getitem colors_dict ''suppress_strong'' of
             Inl e \<Rightarrow> Inl e
           | Inr c \<Rightarrow> Inr (colors @ [c], enhancement_count + 1)))"

fun color_loop ::
  "(string \<rightharpoonup> 'c) \<Rightarrow> real list \<Rightarrow> 'c list \<times> nat \<Rightarrow> error + 'c list \<times> nat" where
  "color_loop colors_dict [] acc = Inr acc"
| "color_loop colors_dict (v # vs) acc =
     (case color_step colors_dict v acc of
        Inl e \<Rightarrow> Inl e
      | Inr acc' \<Rightarrow> color_loop colors_dict vs acc')"

subsection \<open>float64 arithmetic\<close>

text \<open>
  Python computes the percentage in IEEE 754 binary64: every operation returns the
  float nearest to the exact result, ties to the even significand. \<open>float64_round\<close> is
  that rounding for a non-negative real below the overflow threshold \<open>2 ^ 1024\<close>, with
  53 significant bits down to the exponent \<open>-1022\<close> and the fixed spacing
  \<open>2 ^ (-1074)\<close> below it. \<open>exponent_search\<close> finds the exponent \<open>e\<close> with
  \<open>2 ^ e \<le> x < 2 ^ (e + 1)\<close>, walking from \<open>0\<close>.
\<close>

definition round_half_even :: "real \<Rightarrow> int" where
  "round_half_even q =
     (let f = \<lfloor>q\<rfloor>; r = q - of_int f
      in if r < 1 / 2 then f else if 1 / 2 < r then f + 1 else if even f then f else f + 1)"

fun exponent_search :: "nat \<Rightarrow> int \<Rightarrow> real \<Rightarrow> int" where
  "exponent_search 0 k x = k"
| "exponent_search (Suc fuel) k x =
     (if x < 2 powi k then exponent_search fuel (k - 1) x
      else if 2 powi (k + 1) \<le> x then exponent_search fuel (k + 1) x
      else k)"

definition ulp_exponent :: "real \<Rightarrow> int" where
  "ulp_exponent x = (if x < 2 powi (- 1022) then - 1022 else exponent_search 2046 0 x)"

definition float64_round :: "real \<Rightarrow> real" where
  "float64_round x =
     (if x \<le> 0 then 0
      else let ulp = 2 powi (ulp_exponent x - 52)
           in of_int (round_half_even (x / ulp)) * ulp)"


text \<open>
  \<open>a / b\<close> on two ints (true division, correctly rounded, ZeroDivisionError on a zero
  divisor) and \<open>x * y\<close> on floats.
\<close>

definition py_truediv :: "nat \<Rightarrow> nat \<Rightarrow> error + real" where
  "py_truediv a b =
     (if b = 0 then Inl ZeroDivisionError else Inr (float64_round (real a / real b)))"

definition float_mul :: "real \<Rightarrow> real \<Rightarrow> real" where
  "float_mul x y = float64_round (x * y)"

text \<open>
  What a map function leaves behind: the points handed to the plot, in drawing order,
  each with its colour, and the enhancement percentage (returned by
  \<open>create_global_map_only\<close>, written into the annotation by \<open>plot_global_map\<close>),
  the float \<open>(enhancement_count / len(...)) * 100\<close>. The reprojection of the points,
  the basemap, the axes and the legend are left out.
\<close>

record 'c map_panel =
  points :: "(row \<times> 'c) list"
  enhancement_pct :: real

definition create_global_map_only ::
  "(string \<rightharpoonup> 'c) \<Rightarrow> row list \<Rightarrow> error + 'c map_panel" where
  "create_global_map_only colors_dict spatial_2020 =
     (let spatial_2020_sorted = take_rows spatial_2020 (argsort (column2 spatial_2020))
      in case color_loop colors_dict (column2 spatial_2020_sorted) ([], 0) of
           Inl e \<Rightarrow> Inl e
         | Inr (colors, enhancement_count) \<Rightarrow>
             (case py_truediv enhancement_count (length spatial_2020) of
                Inl e \<Rightarrow> Inl e
              | Inr q \<Rightarrow>
                  Inr \<lparr>points = zip spatial_2020_sorted colors,
                       enhancement_pct = float_mul q 100\<rparr>))"

definition plot_global_map :: "row list \<Rightarrow> error + color map_panel" where
  "plot_global_map spatial_data0 =
     (let spatial_data = take_rows spatial_data0 (argsort (column2 spatial_data0));
          total_cities = length spatial_data
      in case color_loop COLORS (column2 spatial_data) ([], 0) of
           Inl e \<Rightarrow> Inl e
         | Inr (colors, enhancement_count) \<Rightarrow>
             (case py_truediv enhancement_count total_cities of
                Inl e \<Rightarrow> Inl e
              | Inr q \<Rightarrow>
                  Inr \<lparr>points = zip spatial_data colors,
                       enhancement_pct = float_mul q 100\<rparr>))"

text \<open>
  A colour table with the four keys the colouring loop reads, and the key the loop
  reads for a value.
\<close>

definition has_map_colors :: "(string \<rightharpoonup> 'c) \<Rightarrow> bool" where
  "has_map_colors d =
     (d ''enhance_strong'' \<noteq> None \<and> d ''enhance_weak'' \<noteq> None
      \<and> d ''suppress_weak'' \<noteq> None \<and> d ''suppress_strong'' \<noteq> None)"

definition category :: "real \<Rightarrow> string" where
  "category v =
     (if v < - 0.1 then ''enhance_strong''
      else if v < 0 then ''enhance_weak''
      else if v < 0.1 then ''suppress_weak''
      else ''suppress_strong'')"

text \<open>The float that \<open>(c / n) * 100\<close> computes for two ints, \<open>n\<close> not zero.\<close>

definition float_pct :: "nat \<Rightarrow> nat \<Rightarrow> real" where
  "float_pct c n = float_mul (float64_round (real c / real n)) 100"

text \<open>
  The half-open interval rule in the words of the specification, with \<open>t1 = -0.1\<close> and
  \<open>t2 = 0.1\<close>: \<open>sn\<close>, \<open>wn\<close>, \<open>wp\<close> and \<open>sp\<close> stand for strong-negative, weak-negative,
  weak-positive and strong-positive.
\<close>

definition half_open_interval_rule :: "'c \<Rightarrow> 'c \<Rightarrow> 'c \<Rightarrow> 'c \<Rightarrow> real \<Rightarrow> 'c \<Rightarrow> bool" where
  "half_open_interval_rule sn wn wp sp v c =
     ((v < - 0.1 \<longrightarrow> c = sn) \<and> (- 0.1 \<le> v \<and> v < 0 \<longrightarrow> c = wn)
      \<and> (0 \<le> v \<and> v < 0.1 \<longrightarrow> c = wp) \<and> (0.1 \<le> v \<longrightarrow> c = sp))"

subsection \<open>The same function on arrays held by reference\<close>

text \<open>
  numpy arrays are objects: the caller and the function share the array passed in. The
  store maps references to arrays; \<open>next_ref\<close> is the first unused reference. Indexing
  with an index array allocates a new array, and \<open>create_global_map_only\<close> binds it to
  the new name \<open>spatial_2020_sorted\<close>; the function then reads the sorted copy in the
  loop and the plot, and the array passed in for \<open>len\<close>.
\<close>

record store =
  heap :: "nat \<Rightarrow> row list"
  next_ref :: nat

definition alloc :: "row list \<Rightarrow> store \<Rightarrow> nat \<times> store" where
  "alloc a s =
     (next_ref s, s\<lparr>heap := (heap s)(next_ref s := a), next_ref := Suc (next_ref s)\<rparr>)"

definition create_global_map_only_ref ::
  "(string \<rightharpoonup> 'c) \<Rightarrow> nat \<Rightarrow> store \<Rightarrow> (error + 'c map_panel) \<times> store" where
  "create_global_map_only_ref colors_dict spatial_2020 s =
     (case alloc (take_rows (heap s spatial_2020) (argsort (column2 (heap s spatial_2020)))) s of
        (spatial_2020_sorted, s1) \<Rightarrow>
          (case color_loop colors_dict (column2 (heap s1 spatial_2020_sorted)) ([], 0) of
             Inl e \<Rightarrow> (Inl e, s1)
           | Inr (colors, enhancement_count) \<Rightarrow>
               (case py_truediv enhancement_count (length (heap s1 spatial_2020)) of
                  Inl e \<Rightarrow> (Inl e, s1)
                | Inr q \<Rightarrow>
                    (Inr \<lparr>points = zip (heap s1 spatial_2020_sorted) colors,
                          enhancement_pct = float_mul q 100\<rparr>,
                     s1))))"

section \<open>Temporal stability (analysis/data\_loader.py, analysis/figure1\_components.py)\<close>

text \<open>The column \<open>enhancement_pct\<close> of the table \<open>temporal_stability\<close>, 2001 to 2020.\<close>

definition temporal_stability_enhancement_pct :: "real list" where
  "temporal_stability_enhancement_pct =
     [64.8, 63.0, 61.3, 62.0, 61.4, 59.8, 64.1, 61.7, 60.8, 60.3,
      59.8, 60.0, 63.0, 58.4, 59.9, 64.6, 63.9, 67.3, 59.0, 63.8]"

text \<open>
  The statistics that \<open>create_temporal_stability_standalone\<close> takes of that column are
  the pandas methods \<open>mean()\<close>, \<open>min()\<close> and \<open>max()\<close> of a series. On an empty series
  pandas raises nothing and returns NaN, which is \<open>None\<close> here. The sum and the quotient
  of the mean are taken exactly; the rounding of the floats is far below the tolerance
  the mean is compared with.
\<close>

definition series_mean :: "real list \<Rightarrow> real option" where
  "series_mean xs = (if xs = [] then None else Some (sum_list xs / real (length xs)))"

fun series_min :: "real list \<Rightarrow> real option" where
  "series_min [] = None"
| "series_min (x # xs) = Some (fold min xs x)"

fun series_max :: "real list \<Rightarrow> real option" where
  "series_max [] = None"
| "series_max (x # xs) = Some (fold max xs x)"

section \<open>The composite driver (composite\_figure1.py)\<close>

text \<open>
  \<open>s.replace(old, new)\<close> of Python: every occurrence of \<open>old\<close> in \<open>s\<close>, found from
  left to right without overlap, becomes \<open>new\<close>; with an empty \<open>old\<close>, \<open>new\<close> is put
  before every character and at the end.
\<close>

function replace_nonempty :: "string \<Rightarrow> string \<Rightarrow> string \<Rightarrow> string" where
  "replace_nonempty old new [] = []"
| "replace_nonempty old new (c # s) =
     (if old \<noteq> [] \<and> take (length old) (c # s) = old
      then new @ replace_nonempty old new (drop (length old) (c # s))
      else c # replace_nonempty old new s)"
  by pat_completeness auto
termination
  by (relation "measure (\<lambda>(old, new, s). length s)") (auto simp: neq_Nil_conv)

definition str_replace :: "string \<Rightarrow> string \<Rightarrow> string \<Rightarrow> string" where
  "str_replace s old new =
     (if old = [] then new @ concat (map (\<lambda>c. c # new) s) else replace_nonempty old new s)"

text \<open>
  \<open>create_composite_figure\<close>, once the data is loaded and the panels are drawn: the
  paths of its two calls of \<open>savefig\<close>, in order. A call writes the file at its path,
  over a file that is already there.
\<close>

definition create_composite_figure :: "string \<Rightarrow> string list" where
  "create_composite_figure output_path =
     (let png_path = str_replace output_path ''.pdf'' ''.png''
      in [output_path, png_path])"

section \<open>Results\<close>

lemma round_half_even_error: "\<bar>of_int (round_half_even q) - q\<bar> \<le> 1 / 2"
  unfolding round_half_even_def Let_def by (auto; linarith)

lemma round_half_even_of_int [simp]: "round_half_even (of_int n) = n"
  by (simp add: round_half_even_def)

lemma round_half_even_mono:
  assumes "q \<le> q'"
  shows "round_half_even q \<le> round_half_even q'"
proof (rule ccontr)
  assume "\<not> round_half_even q \<le> round_half_even q'"
  then have gt: "round_half_even q' + 1 \<le> round_half_even q" by simp
  then have gtr: "real_of_int (round_half_even q') + 1 \<le> real_of_int (round_half_even q)"
    by (metis of_int_1 of_int_add of_int_le_iff)
  note e = round_half_even_error [of q] round_half_even_error [of q']
  from gtr e assms have eq: "q' = q"
    and a: "real_of_int (round_half_even q) = q + 1 / 2"
    and b: "real_of_int (round_half_even q') = q' - 1 / 2"
    by linarith+
  from eq gt show False by simp
qed

lemma powi_bracket_less:
  assumes "2 powi a \<le> (x::real)" and "x < 2 powi b"
  shows "a < b"
proof (rule ccontr)
  assume "\<not> a < b"
  then have "b \<le> a" by simp
  then have "(2::real) powi b \<le> 2 powi a"
    by (intro power_int_increasing) simp_all
  with assms show False by linarith
qed

lemma exponent_search_correct:
  assumes "2 powi e \<le> x" and "x < 2 powi (e + 1)"
  shows "\<bar>e - k\<bar> \<le> int fuel \<Longrightarrow> exponent_search fuel k x = e"
proof (induction fuel arbitrary: k)
  case 0
  then show ?case by simp
next
  case (Suc fuel)
  show ?case
  proof (cases "x < 2 powi k")
    case True
    with assms(1) have "e < k" by (rule powi_bracket_less)
    with Suc.prems have "\<bar>e - (k - 1)\<bar> \<le> int fuel" by simp
    with True Suc.IH show ?thesis by simp
  next
    case False
    show ?thesis
    proof (cases "2 powi (k + 1) \<le> x")
      case True
      from True assms(2) have "k + 1 < e + 1" by (rule powi_bracket_less)
      with Suc.prems have "\<bar>e - (k + 1)\<bar> \<le> int fuel" by simp
      with True False Suc.IH show ?thesis by simp
    next
      case nb: False
      from assms(1) nb have "e < k + 1" by (intro powi_bracket_less [of e x]) simp_all
      moreover from False assms(2) have "k < e + 1" by (intro powi_bracket_less [of k x]) simp_all
      ultimately show ?thesis using False nb by simp
    qed
  qed
qed

lemma ulp_exponent_eqI:
  assumes "2 powi k \<le> x" and "x < 2 powi (k + 1)" and "- 1022 \<le> k" and "k \<le> 1023"
  shows "ulp_exponent x = k"
proof -
  have "(2::real) powi (- 1022) \<le> 2 powi k"
    using assms(3) by (intro power_int_increasing) simp_all
  with assms(1) have "\<not> x < 2 powi (- 1022)" by linarith
  moreover have "exponent_search 2046 0 x = k"
    using assms by (intro exponent_search_correct) simp_all
  ultimately show ?thesis by (simp add: ulp_exponent_def)
qed


lemma ulp_exponent_props:
  assumes "0 < x" and "x < 2 powi 1024"
  shows "- 1022 \<le> ulp_exponent x" and "ulp_exponent x \<le> 1023"
    and "x < 2 powi (ulp_exponent x + 1)"
    and "2 powi ulp_exponent x \<le> x \<or> ulp_exponent x = - 1022"
proof -
  have all: "- 1022 \<le> ulp_exponent x \<and> ulp_exponent x \<le> 1023
      \<and> x < 2 powi (ulp_exponent x + 1)
      \<and> (2 powi ulp_exponent x \<le> x \<or> ulp_exponent x = - 1022)"
  proof (cases "x < 2 powi (- 1022)")
    case True
    then have E: "ulp_exponent x = - 1022" by (simp add: ulp_exponent_def)
    have "(2::real) powi (- 1022) \<le> 2 powi (- 1022 + 1)"
      by (intro power_int_increasing) simp_all
    with True have "x < 2 powi (- 1022 + 1)" by linarith
    with E show ?thesis by simp
  next
    case False
    define e where "e = \<lfloor>log 2 x\<rfloor>"
    from assms(1) have br: "2 powr (real_of_int e) \<le> x \<and> x < 2 powr (real_of_int e + 1)"
      unfolding e_def using floor_log_eq_powr_iff [of x 2 "\<lfloor>log 2 x\<rfloor>"] by simp
    have c1: "(2::real) powr real_of_int e = 2 powi e"
      by (rule powr_real_of_int') simp_all
    have c2: "(2::real) powr real_of_int (e + 1) = 2 powi (e + 1)"
      by (rule powr_real_of_int') simp_all
    have c3: "real_of_int (e + 1) = real_of_int e + 1"
      by simp
    from br have lo: "2 powi e \<le> x"
      by (simp only: c1)
    from br have hi: "x < 2 powi (e + 1)"
      by (simp only: c2 [symmetric] c3)
    from False have "2 powi (- 1022) \<le> x" by simp
    from this hi have "- 1022 < e + 1" by (rule powi_bracket_less)
    then have ge: "- 1022 \<le> e" by simp
    from lo assms(2) have "e < 1024" by (rule powi_bracket_less)
    then have le: "e \<le> 1023" by simp
    from ulp_exponent_eqI [OF lo hi ge le] lo hi ge le show ?thesis by simp
  qed
  from all show "- 1022 \<le> ulp_exponent x" and "ulp_exponent x \<le> 1023"
    and "x < 2 powi (ulp_exponent x + 1)"
    and "2 powi ulp_exponent x \<le> x \<or> ulp_exponent x = - 1022"
    by simp_all
qed

lemma ulp_exponent_le:
  assumes "0 < x" and "x < 2 powi (k + 1)" and "- 1022 \<le> k" and "k \<le> 1023"
  shows "ulp_exponent x \<le> k"
proof -
  have "(2::real) powi (k + 1) \<le> 2 powi 1024"
    using assms(4) by (intro power_int_increasing) simp_all
  with assms(2) have "x < 2 powi 1024" by linarith
  note p = ulp_exponent_props [OF assms(1) this]
  from p(4) show ?thesis
  proof
    assume "2 powi ulp_exponent x \<le> x"
    from this assms(2) have "ulp_exponent x < k + 1" by (rule powi_bracket_less)
    then show ?thesis by simp
  next
    assume "ulp_exponent x = - 1022"
    with assms(3) show ?thesis by simp
  qed
qed

lemma float64_round_error:
  assumes "0 < x"
  shows "\<bar>float64_round x - x\<bar> \<le> 2 powi (ulp_exponent x - 52) / 2"
proof -
  let ?u = "(2::real) powi (ulp_exponent x - 52)"
  have u: "0 < ?u" by simp
  have "\<bar>of_int (round_half_even (x / ?u)) - x / ?u\<bar> * ?u \<le> (1 / 2) * ?u"
    using round_half_even_error [of "x / ?u"] u by (intro mult_right_mono) simp_all
  moreover have "(of_int (round_half_even (x / ?u)) - x / ?u) * ?u
      = of_int (round_half_even (x / ?u)) * ?u - x"
    using u by (simp add: left_diff_distrib)
  then have "\<bar>of_int (round_half_even (x / ?u)) - x / ?u\<bar> * ?u
      = \<bar>of_int (round_half_even (x / ?u)) * ?u - x\<bar>"
    using u by (metis abs_mult abs_of_pos)
  ultimately show ?thesis
    using assms by (simp add: float64_round_def Let_def)
qed

lemma float64_round_nonneg: "0 \<le> float64_round x"
proof (cases "x \<le> 0")
  case True
  then show ?thesis by (simp add: float64_round_def)
next
  case False
  let ?u = "(2::real) powi (ulp_exponent x - 52)"
  from False have "0 \<le> x / ?u" by simp
  then have "round_half_even 0 \<le> round_half_even (x / ?u)"
    by (rule round_half_even_mono)
  then have "0 \<le> round_half_even (x / ?u)"
    using round_half_even_of_int [of 0] by simp
  then show ?thesis
    using False by (simp add: float64_round_def Let_def)
qed

lemma float64_round_upper:
  assumes "0 < x" and that: "x < 2 powi (ulp_exponent x + 1)"
  shows "float64_round x \<le> 2 powi (ulp_exponent x + 1)"
proof -
  let ?E = "ulp_exponent x"
  let ?u = "(2::real) powi (?E - 52)"
  have u: "0 < ?u" by simp
  have split: "(2::real) powi (?E + 1) = 2 powi 53 * ?u"
    using power_int_add [of "2::real" 53 "?E - 52"] by (simp add: algebra_simps)
  from that have "x / ?u \<le> 2 powi 53"
    using u by (simp add: split pos_divide_le_eq)
  then have "x / ?u \<le> real_of_int (2 ^ 53)" by simp
  then have "round_half_even (x / ?u) \<le> round_half_even (real_of_int (2 ^ 53))"
    by (rule round_half_even_mono)
  then have "round_half_even (x / ?u) \<le> 2 ^ 53"
    by (simp only: round_half_even_of_int)
  then have "real_of_int (round_half_even (x / ?u)) \<le> 2 powi 53"
    by (metis of_int_le_iff of_int_numeral of_int_power power_int_numeral)
  then have "real_of_int (round_half_even (x / ?u)) * ?u \<le> 2 powi 53 * ?u"
    using u by (intro mult_right_mono) simp_all
  then show ?thesis
    using assms(1) by (simp only: split) (simp add: float64_round_def Let_def)
qed

lemma float64_round_lower:
  assumes "0 < x" and "2 powi (ulp_exponent x) \<le> x"
  shows "2 powi (ulp_exponent x) \<le> float64_round x"
proof -
  let ?E = "ulp_exponent x"
  let ?u = "(2::real) powi (?E - 52)"
  have u: "0 < ?u" by simp
  have split: "(2::real) powi ?E = 2 powi 52 * ?u"
    using power_int_add [of "2::real" 52 "?E - 52"] by (simp add: algebra_simps)
  from assms(2) have "2 powi 52 \<le> x / ?u"
    using u by (simp add: split pos_le_divide_eq)
  then have "real_of_int (2 ^ 52) \<le> x / ?u" by simp
  then have "round_half_even (real_of_int (2 ^ 52)) \<le> round_half_even (x / ?u)"
    by (rule round_half_even_mono)
  then have "2 ^ 52 \<le> round_half_even (x / ?u)"
    by (simp only: round_half_even_of_int)
  then have "2 powi 52 \<le> real_of_int (round_half_even (x / ?u))"
    by (metis of_int_le_iff of_int_numeral of_int_power power_int_numeral)
  then have "2 powi 52 * ?u \<le> real_of_int (round_half_even (x / ?u)) * ?u"
    using u by (intro mult_right_mono) simp_all
  then show ?thesis
    using assms(1) by (simp only: split) (simp add: float64_round_def Let_def)
qed

lemma float64_round_mono:
  assumes "x \<le> y" and "y < 2 powi 1024"
  shows "float64_round x \<le> float64_round y"
proof (cases "x \<le> 0")
  case True
  then have "float64_round x = 0" by (simp add: float64_round_def)
  then show ?thesis by (simp add: float64_round_nonneg)
next
  case False
  then have x: "0 < x" and y: "0 < y" using assms(1) by simp_all
  from assms have xlt: "x < 2 powi 1024" by simp
  note px = ulp_exponent_props [OF x xlt] and py = ulp_exponent_props [OF y assms(2)]
  have Ele: "ulp_exponent x \<le> ulp_exponent y"
  proof (rule ccontr)
    assume "\<not> ulp_exponent x \<le> ulp_exponent y"
    then have gt: "ulp_exponent y < ulp_exponent x" by simp
    with py(1) px(4) have "2 powi ulp_exponent x \<le> x" by auto
    with assms(1) have "2 powi ulp_exponent x \<le> y" by simp
    from this py(3) have "ulp_exponent x < ulp_exponent y + 1" by (rule powi_bracket_less)
    with gt show False by simp
  qed
  show ?thesis
  proof (cases "ulp_exponent x = ulp_exponent y")
    case True
    let ?u = "(2::real) powi (ulp_exponent y - 52)"
    have u: "0 < ?u" by simp
    from assms(1) have "x / ?u \<le> y / ?u"
      using u by (simp add: divide_right_mono)
    then have "round_half_even (x / ?u) \<le> round_half_even (y / ?u)"
      by (rule round_half_even_mono)
    then have "real_of_int (round_half_even (x / ?u)) * ?u
        \<le> real_of_int (round_half_even (y / ?u)) * ?u"
      using u by (intro mult_right_mono) simp_all
    then show ?thesis
      using x y True by (simp add: float64_round_def Let_def)
  next
    case False
    with Ele have lt: "ulp_exponent x + 1 \<le> ulp_exponent y" by simp
    with px(1) py(4) have ynorm: "2 powi ulp_exponent y \<le> y" by auto
    have "float64_round x \<le> 2 powi (ulp_exponent x + 1)"
      using x px(3) by (rule float64_round_upper)
    also have "\<dots> \<le> 2 powi ulp_exponent y"
      using lt by (intro power_int_increasing) simp_all
    also have "\<dots> \<le> float64_round y"
      using y ynorm by (rule float64_round_lower)
    finally show ?thesis .
  qed
qed

lemma float64_round_1 [simp]: "float64_round 1 = 1"
proof -
  have "ulp_exponent 1 = 0"
    by (rule ulp_exponent_eqI) simp_all
  then show ?thesis
    by (simp add: float64_round_def round_half_even_def)
qed

lemma float64_round_100 [simp]: "float64_round 100 = 100"
proof -
  have "ulp_exponent 100 = 6"
    by (rule ulp_exponent_eqI) simp_all
  then show ?thesis
    by (simp add: float64_round_def round_half_even_def)
qed


lemma float64_round_unit_interval:
  assumes "0 \<le> x" and "x \<le> 1"
  shows "0 \<le> float64_round x" and "float64_round x \<le> 1"
    and "\<bar>float64_round x - x\<bar> \<le> 1 / 2 ^ 54"
proof -
  show "0 \<le> float64_round x" by (rule float64_round_nonneg)
  have "float64_round x \<le> float64_round 1"
    using assms(2) by (rule float64_round_mono) simp
  then show "float64_round x \<le> 1" by simp
  show "\<bar>float64_round x - x\<bar> \<le> 1 / 2 ^ 54"
  proof (cases "x = 0 \<or> x = 1")
    case True
    then show ?thesis
    proof
      assume "x = 0"
      then show ?thesis by (simp add: float64_round_def)
    next
      assume "x = 1"
      then show ?thesis by simp
    qed
  next
    case False
    with assms have x: "0 < x" and "x < 1" by simp_all
    then have "x < 2 powi (- 1 + 1)" by simp
    with x have "ulp_exponent x \<le> - 1"
      by (rule ulp_exponent_le) simp_all
    then have "(2::real) powi (ulp_exponent x - 52) \<le> 2 powi (- 53)"
      by (intro power_int_increasing) simp_all
    with float64_round_error [OF x] have "\<bar>float64_round x - x\<bar> \<le> 2 powi (- 53) / 2"
      by linarith
    also have "(2::real) powi (- 53) / 2 = 1 / 2 ^ 54"
      by simp
    finally show ?thesis .
  qed
qed

lemma float_pct_bounds:
  assumes "c \<le> n" and "0 < n"
  shows "0 \<le> float_pct c n" and "float_pct c n \<le> 100"
    and "\<bar>float_pct c n - 100 * real c / real n\<bar> \<le> 1 / 2 ^ 46"
proof -
  let ?x = "real c / real n"
  let ?r = "float64_round ?x"
  let ?y = "?r * 100"
  from assms have x: "0 \<le> ?x" "?x \<le> 1" by simp_all
  note r = float64_round_unit_interval [OF x]
  show "0 \<le> float_pct c n"
    unfolding float_pct_def float_mul_def by (rule float64_round_nonneg)
  from r(2) have y100: "?y \<le> 100" by simp
  then have "float64_round ?y \<le> float64_round 100"
    by (rule float64_round_mono) simp
  then show "float_pct c n \<le> 100"
    by (simp add: float_pct_def float_mul_def)
  have e2: "\<bar>float64_round ?y - ?y\<bar> \<le> 1 / 2 ^ 47"
  proof (cases "?y \<le> 0")
    case True
    with r(1) have "?y = 0" by simp
    then show ?thesis by (simp add: float64_round_def)
  next
    case False
    then have y: "0 < ?y" by simp
    from y100 have "?y < 2 powi (6 + 1)" by simp
    with y have "ulp_exponent ?y \<le> 6"
      by (rule ulp_exponent_le) simp_all
    then have "(2::real) powi (ulp_exponent ?y - 52) \<le> 2 powi (- 46)"
      by (intro power_int_increasing) simp_all
    with float64_round_error [OF y] have "\<bar>float64_round ?y - ?y\<bar> \<le> 2 powi (- 46) / 2"
      by linarith
    also have "(2::real) powi (- 46) / 2 = 1 / 2 ^ 47"
      by simp
    finally show ?thesis .
  qed
  have "\<bar>?y - 100 * ?x\<bar> = 100 * \<bar>?r - ?x\<bar>"
    by (simp add: abs_if)
  with r(3) have e1: "\<bar>?y - 100 * ?x\<bar> \<le> 100 * (1 / 2 ^ 54)"
    by simp
  have "\<bar>float64_round ?y - 100 * ?x\<bar> \<le> \<bar>float64_round ?y - ?y\<bar> + \<bar>?y - 100 * ?x\<bar>"
    by simp
  with e1 e2 have "\<bar>float64_round ?y - 100 * ?x\<bar> \<le> 1 / 2 ^ 47 + 100 * (1 / 2 ^ 54)"
    by linarith
  also have "\<dots> \<le> (1 / 2 ^ 46 :: real)"
    by simp
  finally show "\<bar>float_pct c n - 100 * real c / real n\<bar> \<le> 1 / 2 ^ 46"
    by (simp add: float_pct_def float_mul_def)
qed

lemma float_pct_6_10: "float_pct 6 10 = 60"
proof -
  have a: "real (6::nat) / real (10::nat) = 3 / 5"
    by simp
  have "ulp_exponent (3 / 5) = - 1"
    by (rule ulp_exponent_eqI) simp_all
  then have q: "float64_round (3 / 5) = 5404319552844595 / 9007199254740992"
    by (simp add: float64_round_def round_half_even_def)
  have "ulp_exponent (5404319552844595 / 9007199254740992 * 100) = 5"
    by (rule ulp_exponent_eqI) simp_all
  then have r: "float64_round (5404319552844595 / 9007199254740992 * 100) = 60"
    by (simp add: float64_round_def round_half_even_def)
  show ?thesis
    unfolding float_pct_def float_mul_def a q r ..
qed

lemma float_pct_11_20: "float_pct 11 20 = 7740561859543041 / 140737488355328"
proof -
  have a: "real (11::nat) / real (20::nat) = 11 / 20"
    by simp
  have "ulp_exponent (11 / 20) = - 1"
    by (rule ulp_exponent_eqI) simp_all
  then have q: "float64_round (11 / 20) = 2476979795053773 / 4503599627370496"
    by (simp add: float64_round_def round_half_even_def)
  have "ulp_exponent (2476979795053773 / 4503599627370496 * 100) = 5"
    by (rule ulp_exponent_eqI) simp_all
  then have r: "float64_round (2476979795053773 / 4503599627370496 * 100) = 7740561859543041 / 140737488355328"
    by (simp add: float64_round_def round_half_even_def)
  show ?thesis
    unfolding float_pct_def float_mul_def a q r ..
qed

lemma float_pct_2_3: "float_pct 2 3 = 2345624805922133 / 35184372088832"
proof -
  have a: "real (2::nat) / real (3::nat) = 2 / 3"
    by simp
  have "ulp_exponent (2 / 3) = - 1"
    by (rule ulp_exponent_eqI) simp_all
  then have q: "float64_round (2 / 3) = 6004799503160661 / 9007199254740992"
    by (simp add: float64_round_def round_half_even_def)
  have "ulp_exponent (6004799503160661 / 9007199254740992 * 100) = 6"
    by (rule ulp_exponent_eqI) simp_all
  then have r: "float64_round (6004799503160661 / 9007199254740992 * 100) = 2345624805922133 / 35184372088832"
    by (simp add: float64_round_def round_half_even_def)
  show ?thesis
    unfolding float_pct_def float_mul_def a q r ..
qed

lemma column2_take_rows: 
  "column2 (take_rows a (argsort (column2 a))) = map fst (sort_key fst (zip (column2 a) [0..<length a]))"
  apply (simp add: column2_def take_rows_def argsort_def comp_def)
  apply (auto simp: set_zip split: prod.splits)
  done

lemma mset_argsort: "mset (argsort v) = mset [0..<length v]"
  unfolding argsort_def
  by (metis length_map map_snd_zip mset_map mset_sort map_nth)

lemma mset_take_rows_argsort: "length v = length a \<Longrightarrow> mset (take_rows a (argsort v)) = mset a"
  unfolding take_rows_def
  by (metis map_nth mset_argsort mset_map)

lemma sorted_column2: "sorted (column2 (take_rows a (argsort (column2 a))))"
  by (simp add: column2_take_rows sorted_sort_key del: sort_key_simps)


lemma color_step_ok:
  assumes "has_map_colors d"
  shows "color_step d v (cs, n) = Inr (cs @ [the (d (category v))], n + (if 0 \<le> v then 1 else 0))"
  using assms by (auto simp: color_step_def getitem_def has_map_colors_def category_def)

lemma color_loop_ok:
  assumes "has_map_colors d"
  shows "color_loop d vs (cs, n) =
           Inr (cs @ map (\<lambda>v. the (d (category v))) vs, n + length (filter (\<lambda>v. 0 \<le> v) vs))"
proof (induction vs arbitrary: cs n)
  case Nil
  show ?case by simp
next
  case (Cons v vs)
  show ?case
    by (simp add: color_step_ok [OF assms] Cons.IH)
qed

lemma mset_column2_sorted:
  "mset (column2 (take_rows a (argsort (column2 a)))) = mset (column2 a)"
proof -
  have "length (column2 a) = length a" by (simp add: column2_def)
  then have "mset (take_rows a (argsort (column2 a))) = mset a"
    by (rule mset_take_rows_argsort)
  then show ?thesis
    unfolding column2_def by (metis mset_map)
qed

lemma count_sorted:
  "length (filter P (column2 (take_rows a (argsort (column2 a))))) = length (filter P (column2 a))"
proof -
  have "size (filter_mset P (mset (column2 (take_rows a (argsort (column2 a))))))
      = size (filter_mset P (mset (column2 a)))"
    by (simp only: mset_column2_sorted)
  then show ?thesis
    by (simp only: mset_filter [symmetric] size_mset)
qed

lemma length_take_rows_argsort: "length (take_rows a (argsort (column2 a))) = length a"
  by (simp add: take_rows_def argsort_def column2_def)

lemma take_rows_argsort_Nil: "take_rows a (argsort (column2 a)) = [] \<longleftrightarrow> a = []"
  by (metis length_take_rows_argsort length_0_conv)

lemma create_global_map_only_eq:
  assumes "has_map_colors d" and "a \<noteq> []"
  shows "create_global_map_only d a =
           Inr \<lparr>points = zip (take_rows a (argsort (column2 a)))
                            (map (\<lambda>v. the (d (category v))) (column2 (take_rows a (argsort (column2 a))))),
                 enhancement_pct = float_pct (length (filter (\<lambda>v. 0 \<le> v) (column2 a))) (length a)\<rparr>"
  using assms(2)
  by (simp add: create_global_map_only_def Let_def color_loop_ok [OF assms(1)] count_sorted
      py_truediv_def float_pct_def)

lemma has_map_colors_COLORS: "has_map_colors COLORS"
  by (simp add: has_map_colors_def COLORS_def)

lemma plot_global_map_eq:
  assumes "a \<noteq> []"
  shows "plot_global_map a =
           Inr \<lparr>points = zip (take_rows a (argsort (column2 a)))
                            (map (\<lambda>v. the (COLORS (category v))) (column2 (take_rows a (argsort (column2 a))))),
                 enhancement_pct = float_pct (length (filter (\<lambda>v. 0 \<le> v) (column2 a))) (length a)\<rparr>"
  using assms
  by (simp add: plot_global_map_def Let_def color_loop_ok [OF has_map_colors_COLORS] count_sorted
      length_take_rows_argsort take_rows_argsort_Nil py_truediv_def float_pct_def)

lemma color_step_Inr:
  assumes "color_step d v (cs, n) = Inr (cs', n')"
  shows "n' = n + (if 0 \<le> v then 1 else 0) \<and> map Some cs' = map Some cs @ [d (category v)]"
  using assms
  by (auto simp: color_step_def getitem_def category_def split: if_splits option.splits)

lemma color_loop_Inr:
  assumes "color_loop d vs (cs, n) = Inr (cs', n')"
  shows "n' = n + length (filter (\<lambda>v. 0 \<le> v) vs)
       \<and> map Some cs' = map Some cs @ map (\<lambda>v. d (category v)) vs"
  using assms
proof (induction vs arbitrary: cs n)
  case Nil
  then show ?case by simp
next
  case (Cons v vs)
  from Cons.prems obtain cs1 n1 where
    step: "color_step d v (cs, n) = Inr (cs1, n1)"
    and rest: "color_loop d vs (cs1, n1) = Inr (cs', n')"
    by (auto split: sum.splits)
  from color_step_Inr [OF step] Cons.IH [OF rest] show ?case
    by simp
qed

lemma create_global_map_only_Inr:
  assumes "create_global_map_only d a = Inr panel"
  shows "a \<noteq> []"
    and "map fst (points panel) = take_rows a (argsort (column2 a))"
    and "map (Some \<circ> snd) (points panel)
           = map (\<lambda>v. d (category v)) (column2 (take_rows a (argsort (column2 a))))"
    and "enhancement_pct panel
           = float_pct (length (filter (\<lambda>v. 0 \<le> v) (column2 a))) (length a)"
proof -
  let ?S = "take_rows a (argsort (column2 a))"
  from assms obtain colors n where
    loop: "color_loop d (column2 ?S) ([], 0) = Inr (colors, n)"
    and ne: "a \<noteq> []"
    and panel: "panel = \<lparr>points = zip ?S colors,
                         enhancement_pct = float_pct n (length a)\<rparr>"
    by (auto simp: create_global_map_only_def Let_def py_truediv_def float_pct_def
        split: sum.splits prod.splits if_splits)
  from color_loop_Inr [OF loop]
  have n: "n = length (filter (\<lambda>v. 0 \<le> v) (column2 a))"
    and cols: "map Some colors = map (\<lambda>v. d (category v)) (column2 ?S)"
    by (simp_all add: count_sorted)
  from cols have len: "length colors = length ?S"
    by (metis length_map column2_def)
  show "a \<noteq> []" by (rule ne)
  show "map fst (points panel) = ?S"
    by (simp add: panel len)
  have "map snd (zip ?S colors) = colors"
    by (simp add: len)
  then have "map (Some \<circ> snd) (zip ?S colors) = map Some colors"
    by (metis map_map)
  with cols show "map (Some \<circ> snd) (points panel) = map (\<lambda>v. d (category v)) (column2 ?S)"
    by (simp only: panel map_panel.simps)
  show "enhancement_pct panel
           = float_pct (length (filter (\<lambda>v. 0 \<le> v) (column2 a))) (length a)"
    by (simp add: panel n)
qed


lemma argsort10:
  "argsort [- 0.2, - 0.15, - 0.05, - 0.01, 0, 0.02, 0.08, 0.1, 0.5, 1.0] = [0, 1, 2, 3, 4, 5, 6, 7, 8, 9]"
  by (simp add: argsort_def upt_conv_Cons)

lemma sorted_filter_split:
  "sorted (map f xs) \<Longrightarrow> filter (\<lambda>x. f x < (t::real)) xs @ filter (\<lambda>x. t \<le> f x) xs = xs"
proof (induction xs)
  case Nil
  show ?case by simp
next
  case (Cons x xs)
  show ?case
  proof (cases "f x < t")
    case True
    with Cons show ?thesis by simp
  next
    case False
    with Cons.prems have all: "\<forall>y\<in>set xs. t \<le> f y" by auto
    then have "filter (\<lambda>x. f x < t) xs = []" and "filter (\<lambda>x. t \<le> f x) xs = xs"
      by (auto simp: filter_empty_conv filter_id_conv)
    with False show ?thesis by simp
  qed
qed

lemma map_const_replicate: "(\<And>x. x \<in> set xs \<Longrightarrow> g x = y) \<Longrightarrow> map g xs = replicate (length xs) y"
  by (induction xs) auto

lemma drawn_order:
  fixes d :: "string \<rightharpoonup> 'c" and pts :: "(row \<times> 'c) list"
  assumes srt: "sorted (column2 (map fst pts))"
    and cols: "map (Some \<circ> snd) pts = map (\<lambda>v. d (category v)) (column2 (map fst pts))"
  shows "\<exists>k. drop k pts = filter (\<lambda>((lat, lon, v), c). 0.1 \<le> v) pts
           \<and> map (Some \<circ> snd) (drop k pts) = replicate (length pts - k) (d ''suppress_strong'')"
proof -
  let ?f = "\<lambda>((lat, lon, v), c). v :: real"
  let ?A = "filter (\<lambda>p. ?f p < 0.1) pts" and ?B = "filter (\<lambda>p. 0.1 \<le> ?f p) pts"
  have val: "map ?f pts = column2 (map fst pts)"
    by (auto simp: column2_def)
  with srt have "sorted (map ?f pts)" by simp
  then have split: "?A @ ?B = pts" by (rule sorted_filter_split)
  then have "drop (length ?A) (?A @ ?B) = drop (length ?A) pts" by simp
  then have dr: "drop (length ?A) pts = ?B" by simp
  have len: "length ?B = length pts - length ?A"
    using arg_cong [OF split, of length] by simp
  from cols have "map (Some \<circ> snd) pts = map (\<lambda>p. d (category (?f p))) pts"
    by (simp add: val [symmetric] comp_def)
  then have each: "Some (snd p) = d (category (?f p))" if "p \<in> set pts" for p
    using that by (simp add: map_eq_conv)
  have col: "(Some \<circ> snd) p = d ''suppress_strong''" if "p \<in> set ?B" for p
  proof -
    from that have "p \<in> set pts" and "0.1 \<le> ?f p" by simp_all
    then show ?thesis
      using each [of p] by (simp add: category_def)
  qed
  have "map (Some \<circ> snd) ?B = replicate (length ?B) (d ''suppress_strong'')"
    by (rule map_const_replicate) (rule col)
  with dr len have "drop (length ?A) pts = filter (\<lambda>((lat, lon, v), c). 0.1 \<le> v) pts
     \<and> map (Some \<circ> snd) (drop (length ?A) pts)
         = replicate (length pts - length ?A) (d ''suppress_strong'')"
    by (simp add: case_prod_unfold)
  then show ?thesis
    by blast
qed

lemma plot_global_map_conv: "plot_global_map a = create_global_map_only COLORS a"
proof (cases "a = []")
  case True
  then show ?thesis
    by (simp add: create_global_map_only_def plot_global_map_def take_rows_def argsort_def
        column2_def py_truediv_def)
next
  case False
  then show ?thesis
    by (simp add: plot_global_map_eq create_global_map_only_eq [OF has_map_colors_COLORS])
qed

lemma half_open_interval_rule_category:
  assumes "d ''enhance_strong'' = Some sn" and "d ''enhance_weak'' = Some wn"
    and "d ''suppress_weak'' = Some wp" and "d ''suppress_strong'' = Some sp"
  shows "half_open_interval_rule sn wn wp sp v (the (d (category v)))"
  using assms by (simp add: half_open_interval_rule_def category_def)

lemma list_all_zip_column2:
  assumes "\<And>v. P v (f v)"
  shows "list_all (\<lambda>((lat, lon, v), c). P v c) (zip S (map f (column2 S)))"
  by (induction S) (auto simp: column2_def assms)

text \<open>
  C1. With the thresholds \<open>-0.1\<close> and \<open>0.1\<close> of the source, the classifier gives every
  observation exactly one of the four categories by the half-open interval rule:
  \<open>v < -0.1\<close> gives the colour of \<open>enhance_strong\<close> (the strong-negative category),
  \<open>-0.1 \<le> v < 0\<close> that of \<open>enhance_weak\<close> (weak-negative), \<open>0 \<le> v < 0.1\<close> that of
  \<open>suppress_weak\<close> (weak-positive) and \<open>0.1 \<le> v\<close> that of \<open>suppress_strong\<close>
  (strong-positive). This holds of one iteration of the colouring loop, of the whole loop
  over any list of values (one colour per value, in order), and of the points that
  \<open>create_global_map_only\<close> draws for a non-empty dataset, which are the input rows, each
  with the colour of its value; \<open>plot_global_map\<close> does the same with the colour table of
  the repository. Exactly one of the four interval predicates holds of every real \<open>v\<close>;
  when the four colours are distinct, as they are in the colour table of the repository,
  the colour appended determines the interval.
\<close>

theorem classifier_interval_rule:
  assumes "d ''enhance_strong'' = Some sn" and "d ''enhance_weak'' = Some wn"
    and "d ''suppress_weak'' = Some wp" and "d ''suppress_strong'' = Some sp"
  shows "(v < - 0.1 \<longrightarrow> color_step d v (cs, n) = Inr (cs @ [sn], n))
       \<and> (- 0.1 \<le> v \<and> v < 0 \<longrightarrow> color_step d v (cs, n) = Inr (cs @ [wn], n))
       \<and> (0 \<le> v \<and> v < 0.1 \<longrightarrow> color_step d v (cs, n) = Inr (cs @ [wp], n + 1))
       \<and> (0.1 \<le> v \<longrightarrow> color_step d v (cs, n) = Inr (cs @ [sp], n + 1))
       \<and> length (filter id [v < - 0.1, - 0.1 \<le> v \<and> v < 0, 0 \<le> v \<and> v < 0.1, 0.1 \<le> v]) = 1
       \<and> (distinct [sn, wn, wp, sp] \<longrightarrow>
            (color_step d v (cs, n) = Inr (cs @ [sn], n) \<longleftrightarrow> v < - 0.1)
          \<and> (color_step d v (cs, n) = Inr (cs @ [wn], n) \<longleftrightarrow> - 0.1 \<le> v \<and> v < 0)
          \<and> (color_step d v (cs, n) = Inr (cs @ [wp], n + 1) \<longleftrightarrow> 0 \<le> v \<and> v < 0.1)
          \<and> (color_step d v (cs, n) = Inr (cs @ [sp], n + 1) \<longleftrightarrow> 0.1 \<le> v))
       \<and> (\<exists>colors.
            color_loop d vs ([], 0) = Inr (colors, length (filter (\<lambda>v. 0 \<le> v) vs))
          \<and> list_all2 (half_open_interval_rule sn wn wp sp) vs colors)
       \<and> (spatial \<noteq> [] \<longrightarrow>
            (\<exists>panel.
               create_global_map_only d spatial = Inr panel
             \<and> mset (map fst (points panel)) = mset spatial
             \<and> list_all (\<lambda>((lat, lon, v), c). half_open_interval_rule sn wn wp sp v c)
                 (points panel)))
       \<and> plot_global_map spatial = create_global_map_only COLORS spatial"
proof -
  have hd: "has_map_colors d"
    using assms by (simp add: has_map_colors_def)
  note rule = half_open_interval_rule_category [OF assms]
  have step: "(v < - 0.1 \<longrightarrow> color_step d v (cs, n) = Inr (cs @ [sn], n))
       \<and> (- 0.1 \<le> v \<and> v < 0 \<longrightarrow> color_step d v (cs, n) = Inr (cs @ [wn], n))
       \<and> (0 \<le> v \<and> v < 0.1 \<longrightarrow> color_step d v (cs, n) = Inr (cs @ [wp], n + 1))
       \<and> (0.1 \<le> v \<longrightarrow> color_step d v (cs, n) = Inr (cs @ [sp], n + 1))
       \<and> length (filter id [v < - 0.1, - 0.1 \<le> v \<and> v < 0, 0 \<le> v \<and> v < 0.1, 0.1 \<le> v]) = 1
       \<and> (distinct [sn, wn, wp, sp] \<longrightarrow>
            (color_step d v (cs, n) = Inr (cs @ [sn], n) \<longleftrightarrow> v < - 0.1)
          \<and> (color_step d v (cs, n) = Inr (cs @ [wn], n) \<longleftrightarrow> - 0.1 \<le> v \<and> v < 0)
          \<and> (color_step d v (cs, n) = Inr (cs @ [wp], n + 1) \<longleftrightarrow> 0 \<le> v \<and> v < 0.1)
          \<and> (color_step d v (cs, n) = Inr (cs @ [sp], n + 1) \<longleftrightarrow> 0.1 \<le> v))"
    using assms by (auto simp: color_step_def getitem_def)
  have "list_all2 (half_open_interval_rule sn wn wp sp) vs
          (map (\<lambda>v. the (d (category v))) vs)"
    by (simp add: list_all2_map2 list_all2_same rule)
  then have loop: "\<exists>colors.
            color_loop d vs ([], 0) = Inr (colors, length (filter (\<lambda>v. 0 \<le> v) vs))
          \<and> list_all2 (half_open_interval_rule sn wn wp sp) vs colors"
    by (simp add: color_loop_ok [OF hd])
  have panel: "\<exists>panel.
               create_global_map_only d spatial = Inr panel
             \<and> mset (map fst (points panel)) = mset spatial
             \<and> list_all (\<lambda>((lat, lon, v), c). half_open_interval_rule sn wn wp sp v c)
                 (points panel)" if ne: "spatial \<noteq> []"
  proof -
    let ?S = "take_rows spatial (argsort (column2 spatial))"
    let ?pts = "zip ?S (map (\<lambda>v. the (d (category v))) (column2 ?S))"
    have "map fst ?pts = ?S"
      by (simp add: column2_def)
    moreover have "mset ?S = mset spatial"
      by (rule mset_take_rows_argsort) (simp add: column2_def)
    ultimately have "mset (map fst ?pts) = mset spatial"
      by simp
    moreover have "list_all (\<lambda>((lat, lon, v), c). half_open_interval_rule sn wn wp sp v c) ?pts"
      by (rule list_all_zip_column2) (rule rule)
    ultimately show ?thesis
      by (simp add: create_global_map_only_eq [OF hd ne])
  qed
  from step loop panel plot_global_map_conv [of spatial] show ?thesis
    by blast
qed

theorem classifier_interval_rule_witness:
  "COLORS ''enhance_strong'' = Some (RGB (255 / 255) (120 / 255) (130 / 255))
   \<and> COLORS ''enhance_weak'' = Some (RGB (255 / 255) (179 / 255) (186 / 255))
   \<and> COLORS ''suppress_weak'' = Some (RGB (180 / 255) (210 / 255) (100 / 255))
   \<and> COLORS ''suppress_strong'' = Some (RGB (120 / 255) (200 / 255) (150 / 255))
   \<and> distinct [RGB (255 / 255) (120 / 255) (130 / 255), RGB (255 / 255) (179 / 255) (186 / 255),
               RGB (180 / 255) (210 / 255) (100 / 255), RGB (120 / 255) (200 / 255) (150 / 255)]
   \<and> [(0, 0, 0.3), (10, 20, - 0.2), (30, 40, 0)] \<noteq> ([] :: row list)
   \<and> color_step COLORS (- 0.1) ([], 0) = Inr ([RGB (255 / 255) (179 / 255) (186 / 255)], 0)
   \<and> color_step COLORS 0 ([], 0) = Inr ([RGB (180 / 255) (210 / 255) (100 / 255)], 1)
   \<and> color_step COLORS 0.1 ([], 0) = Inr ([RGB (120 / 255) (200 / 255) (150 / 255)], 1)
   \<and> color_loop COLORS [- 0.2, 0, 0.3] ([], 0)
       = Inr ([RGB (255 / 255) (120 / 255) (130 / 255), RGB (180 / 255) (210 / 255) (100 / 255),
               RGB (120 / 255) (200 / 255) (150 / 255)], 2)
   \<and> (\<exists>panel.
         create_global_map_only COLORS [(0, 0, 0.3), (10, 20, - 0.2), (30, 40, 0)] = Inr panel
       \<and> plot_global_map [(0, 0, 0.3), (10, 20, - 0.2), (30, 40, 0)] = Inr panel
       \<and> mset (map fst (points panel)) = mset [(0, 0, 0.3), (10, 20, - 0.2), (30, 40, 0)]
       \<and> list_all (\<lambda>((lat, lon, v), c).
            half_open_interval_rule (RGB (255 / 255) (120 / 255) (130 / 255))
              (RGB (255 / 255) (179 / 255) (186 / 255)) (RGB (180 / 255) (210 / 255) (100 / 255))
              (RGB (120 / 255) (200 / 255) (150 / 255)) v c) (points panel))"
proof -
  let ?xs = "[(0, 0, 0.3), (10, 20, - 0.2), (30, 40, 0)] :: row list"
  have h1: "COLORS ''enhance_strong'' = Some (RGB (255 / 255) (120 / 255) (130 / 255))"
    and h2: "COLORS ''enhance_weak'' = Some (RGB (255 / 255) (179 / 255) (186 / 255))"
    and h3: "COLORS ''suppress_weak'' = Some (RGB (180 / 255) (210 / 255) (100 / 255))"
    and h4: "COLORS ''suppress_strong'' = Some (RGB (120 / 255) (200 / 255) (150 / 255))"
    by (simp_all add: COLORS_def)
  have h5: "?xs \<noteq> []"
    by simp
  note t = classifier_interval_rule [OF h1 h2 h3 h4]
  have steps: "color_step COLORS (- 0.1) ([], 0) = Inr ([RGB (255 / 255) (179 / 255) (186 / 255)], 0)
     \<and> color_step COLORS 0 ([], 0) = Inr ([RGB (180 / 255) (210 / 255) (100 / 255)], 1)
     \<and> color_step COLORS 0.1 ([], 0) = Inr ([RGB (120 / 255) (200 / 255) (150 / 255)], 1)"
    using t [of "- 0.1" "[]" 0 "[]" "[]"] t [of 0 "[]" 0 "[]" "[]"] t [of "0.1" "[]" 0 "[]" "[]"]
    by simp
  from t [of 0 "[]" 0 "[- 0.2, 0, 0.3]" "[]"] obtain colors where
    l: "color_loop COLORS [- 0.2, 0, 0.3] ([], 0)
          = Inr (colors, length (filter (\<lambda>v. 0 \<le> v) [- 0.2, 0, 0.3 :: real]))"
    and r: "list_all2 (half_open_interval_rule (RGB (255 / 255) (120 / 255) (130 / 255))
              (RGB (255 / 255) (179 / 255) (186 / 255)) (RGB (180 / 255) (210 / 255) (100 / 255))
              (RGB (120 / 255) (200 / 255) (150 / 255))) [- 0.2, 0, 0.3] colors"
    by blast
  from r have "colors = [RGB (255 / 255) (120 / 255) (130 / 255),
      RGB (180 / 255) (210 / 255) (100 / 255), RGB (120 / 255) (200 / 255) (150 / 255)]"
    by (auto simp: list_all2_Cons1 half_open_interval_rule_def)
  with l have loop: "color_loop COLORS [- 0.2, 0, 0.3] ([], 0)
       = Inr ([RGB (255 / 255) (120 / 255) (130 / 255), RGB (180 / 255) (210 / 255) (100 / 255),
               RGB (120 / 255) (200 / 255) (150 / 255)], 2)"
    by simp
  from t [of 0 "[]" 0 "[]" ?xs] h5 obtain panel where
    p: "create_global_map_only COLORS ?xs = Inr panel"
    and m: "mset (map fst (points panel)) = mset ?xs"
    and a: "list_all (\<lambda>((lat, lon, v), c).
            half_open_interval_rule (RGB (255 / 255) (120 / 255) (130 / 255))
              (RGB (255 / 255) (179 / 255) (186 / 255)) (RGB (180 / 255) (210 / 255) (100 / 255))
              (RGB (120 / 255) (200 / 255) (150 / 255)) v c) (points panel)"
    and c: "plot_global_map ?xs = create_global_map_only COLORS ?xs"
    by blast
  from p c have "plot_global_map ?xs = Inr panel"
    by simp
  with p m a have "\<exists>panel.
         create_global_map_only COLORS ?xs = Inr panel
       \<and> plot_global_map ?xs = Inr panel
       \<and> mset (map fst (points panel)) = mset ?xs
       \<and> list_all (\<lambda>((lat, lon, v), c).
            half_open_interval_rule (RGB (255 / 255) (120 / 255) (130 / 255))
              (RGB (255 / 255) (179 / 255) (186 / 255)) (RGB (180 / 255) (210 / 255) (100 / 255))
              (RGB (120 / 255) (200 / 255) (150 / 255)) v c) (points panel)"
    by blast
  moreover have "distinct [RGB (255 / 255) (120 / 255) (130 / 255),
      RGB (255 / 255) (179 / 255) (186 / 255), RGB (180 / 255) (210 / 255) (100 / 255),
      RGB (120 / 255) (200 / 255) (150 / 255)]"
    by simp
  ultimately show ?thesis
    using h1 h2 h3 h4 h5 steps loop by blast
qed

text \<open>
  C2, as the code has it. For every non-empty dataset: whenever the colouring loop, run
  once over the sorted values, ends, its counter is the number of values \<open>\<ge> 0\<close>;
  whenever \<open>create_global_map_only\<close> returns, the colours it draws and the counter come
  from that one run of the loop, and the enhancement percentage is the float that
  \<open>(count / total) * 100\<close> computes from the counter and the number of rows: it lies in
  \<open>[0, 100]\<close> and is within \<open>2 ^ (-46)\<close> of \<open>100 * count / total\<close>. The function
  returns when the colour table has the four map colours, and \<open>plot_global_map\<close>
  computes what \<open>create_global_map_only\<close> computes with the colour table of the
  repository.
\<close>

theorem enhancement_pct_from_counts:
  assumes "spatial \<noteq> []"
  shows "(\<forall>colors n.
            color_loop d (column2 (take_rows spatial (argsort (column2 spatial)))) ([], 0)
              = Inr (colors, n)
            \<longrightarrow> n = length (filter (\<lambda>v. 0 \<le> v) (column2 spatial)))
       \<and> (\<forall>panel. create_global_map_only d spatial = Inr panel \<longrightarrow>
              (\<exists>colors.
                 color_loop d (column2 (take_rows spatial (argsort (column2 spatial)))) ([], 0)
                   = Inr (colors, length (filter (\<lambda>v. 0 \<le> v) (column2 spatial)))
               \<and> points panel = zip (take_rows spatial (argsort (column2 spatial))) colors)
            \<and> enhancement_pct panel
                = float_mul
                    (float64_round (real (length (filter (\<lambda>v. 0 \<le> v) (column2 spatial)))
                       / real (length spatial))) 100
            \<and> 0 \<le> enhancement_pct panel \<and> enhancement_pct panel \<le> 100
            \<and> \<bar>enhancement_pct panel
                 - 100 * real (length (filter (\<lambda>v. 0 \<le> v) (column2 spatial)))
                     / real (length spatial)\<bar> \<le> 1 / 2 ^ 46)
       \<and> (has_map_colors d \<longrightarrow> (\<exists>panel. create_global_map_only d spatial = Inr panel))
       \<and> plot_global_map spatial = create_global_map_only COLORS spatial"
proof (intro conjI allI impI)
  fix colors n
  assume "color_loop d (column2 (take_rows spatial (argsort (column2 spatial)))) ([], 0)
            = Inr (colors, n)"
  from color_loop_Inr [OF this] show "n = length (filter (\<lambda>v. 0 \<le> v) (column2 spatial))"
    by (simp add: count_sorted)
next
  fix panel
  assume r: "create_global_map_only d spatial = Inr panel"
  let ?S = "take_rows spatial (argsort (column2 spatial))"
  let ?n = "length (filter (\<lambda>v. 0 \<le> v) (column2 spatial))"
  have "?n \<le> length (column2 spatial)" by (rule length_filter_le)
  then have le: "?n \<le> length spatial" by (simp add: column2_def)
  have pos: "0 < length spatial" using assms by simp
  note b = float_pct_bounds [OF le pos]
  note p = create_global_map_only_Inr(4) [OF r]
  from r obtain colors n where
    loop: "color_loop d (column2 ?S) ([], 0) = Inr (colors, n)"
    and pts: "points panel = zip ?S colors"
    by (auto simp: create_global_map_only_def Let_def py_truediv_def
        split: sum.splits prod.splits if_splits)
  from color_loop_Inr [OF loop] have "n = ?n"
    by (simp add: count_sorted)
  with loop pts show "\<exists>colors. color_loop d (column2 ?S) ([], 0) = Inr (colors, ?n)
      \<and> points panel = zip ?S colors"
    by blast
  show "enhancement_pct panel = float_mul (float64_round (real ?n / real (length spatial))) 100"
    by (simp add: p float_pct_def)
  show "0 \<le> enhancement_pct panel" and "enhancement_pct panel \<le> 100"
    and "\<bar>enhancement_pct panel - 100 * real ?n / real (length spatial)\<bar> \<le> 1 / 2 ^ 46"
    using b by (simp_all only: p)
next
  assume "has_map_colors d"
  then show "\<exists>panel. create_global_map_only d spatial = Inr panel"
    using assms by (simp add: create_global_map_only_eq)
next
  show "plot_global_map spatial = create_global_map_only COLORS spatial"
    by (rule plot_global_map_conv)
qed

theorem enhancement_pct_from_counts_witness:
  "[(0, 0, 0.3), (10, 20, - 0.2), (30, 40, 0)] \<noteq> ([] :: row list)
   \<and> has_map_colors COLORS
   \<and> (\<exists>panel.
         create_global_map_only COLORS [(0, 0, 0.3), (10, 20, - 0.2), (30, 40, 0)] = Inr panel
       \<and> plot_global_map [(0, 0, 0.3), (10, 20, - 0.2), (30, 40, 0)] = Inr panel
       \<and> enhancement_pct panel = 2345624805922133 / 35184372088832
       \<and> 0 \<le> enhancement_pct panel \<and> enhancement_pct panel \<le> 100)"
proof -
  let ?xs = "[(0, 0, 0.3), (10, 20, - 0.2), (30, 40, 0)] :: row list"
  have h1: "has_map_colors COLORS"
    by (simp add: has_map_colors_def COLORS_def)
  have h2: "?xs \<noteq> []"
    by simp
  note t = enhancement_pct_from_counts [OF h2, of COLORS]
  from t h1 obtain panel where p: "create_global_map_only COLORS ?xs = Inr panel"
    by blast
  with t have pct: "enhancement_pct panel
      = float_mul (float64_round (real (length (filter (\<lambda>v. 0 \<le> v) (column2 ?xs)))
          / real (length ?xs))) 100"
    and bnd: "0 \<le> enhancement_pct panel" "enhancement_pct panel \<le> 100"
    by blast+
  have "float_mul (float64_round (2 / 3)) 100 = 2345624805922133 / 35184372088832"
    using float_pct_2_3 by (simp add: float_pct_def)
  with pct have "enhancement_pct panel = 2345624805922133 / 35184372088832"
    by (simp add: column2_def)
  moreover from t p have "plot_global_map ?xs = Inr panel"
    by simp
  ultimately show ?thesis
    using h1 h2 p bnd by blast
qed

text \<open>
  The percentage is not always \<open>100 * count / total\<close>: with 11 of 20 values \<open>\<ge> 0\<close> the
  float \<open>(11 / 20) * 100\<close> is \<open>55.00000000000001\<close>, one unit in the last place above
  \<open>55\<close>.
\<close>

theorem enhancement_pct_11_of_20_not_exact:
  "\<exists>panel.
     create_global_map_only COLORS (map (\<lambda>v. (0, 0, v)) (replicate 9 (- 1) @ replicate 11 1))
       = Inr panel
   \<and> plot_global_map (map (\<lambda>v. (0, 0, v)) (replicate 9 (- 1) @ replicate 11 1)) = Inr panel
   \<and> length (filter (\<lambda>v. 0 \<le> v)
        (column2 (map (\<lambda>v. (0, 0, v)) (replicate 9 (- 1) @ replicate 11 1)))) = 11
   \<and> length (map (\<lambda>v. (0 :: real, 0 :: real, v :: real)) (replicate 9 (- 1) @ replicate 11 1)) = 20
   \<and> enhancement_pct panel = 7740561859543041 / 140737488355328
   \<and> enhancement_pct panel \<noteq> 100 * 11 / 20"
proof -
  let ?ds = "map (\<lambda>v. (0, 0, v)) (replicate 9 (- 1) @ replicate 11 1) :: row list"
  have ne: "?ds \<noteq> []"
    by (simp add: eval_nat_numeral)
  have len: "length ?ds = 20"
    by simp
  have "column2 ?ds = replicate 9 (- 1) @ replicate 11 1"
    by (simp add: column2_def comp_def)
  then have cnt: "length (filter (\<lambda>v. 0 \<le> v) (column2 ?ds)) = 11"
    by simp
  have "create_global_map_only COLORS ?ds
      = Inr \<lparr>points = zip (take_rows ?ds (argsort (column2 ?ds)))
                 (map (\<lambda>v. the (COLORS (category v)))
                    (column2 (take_rows ?ds (argsort (column2 ?ds))))),
             enhancement_pct = float_pct 11 20\<rparr>"
    using create_global_map_only_eq [OF has_map_colors_COLORS ne]
    by (simp only: cnt len)
  then show ?thesis
    using plot_global_map_conv [of ?ds] cnt len
    by (simp add: float_pct_11_20)
qed

text \<open>
  C3. For ten cities with the values \<open>-0.2, -0.15, -0.05, -0.01, 0, 0.02, 0.08, 0.1, 0.5,
  1.0\<close> (any coordinates) the map draws the cities in the given order with the colours
  of strong-negative twice, weak-negative twice, weak-positive three times and
  strong-positive three times, and the enhancement percentage is \<open>60\<close>.
\<close>

theorem ten_cities_example:
  fixes lat lon :: "real \<Rightarrow> real"
  defines "cities \<equiv> map (\<lambda>v. (lat v, lon v, v))
                       [- 0.2, - 0.15, - 0.05, - 0.01, 0, 0.02, 0.08, 0.1, 0.5, 1.0]"
  shows "\<exists>panel.
           create_global_map_only COLORS cities = Inr panel
         \<and> map fst (points panel) = cities
         \<and> map (Some \<circ> snd) (points panel)
             = map COLORS
                 [''enhance_strong'', ''enhance_strong'', ''enhance_weak'', ''enhance_weak'',
                  ''suppress_weak'', ''suppress_weak'', ''suppress_weak'',
                  ''suppress_strong'', ''suppress_strong'', ''suppress_strong'']
         \<and> enhancement_pct panel = 60
         \<and> plot_global_map cities = Inr panel"
proof -
  have c2: "column2 cities = [- 0.2, - 0.15, - 0.05, - 0.01, 0, 0.02, 0.08, 0.1, 0.5, 1.0]"
    by (simp add: cities_def column2_def)
  have srt: "take_rows cities (argsort [- 0.2, - 0.15, - 0.05, - 0.01, 0, 0.02, 0.08, 0.1, 0.5, 1.0])
               = cities"
    unfolding argsort10 by (simp add: take_rows_def cities_def)
  have loop: "color_loop COLORS [- 0.2, - 0.15, - 0.05, - 0.01, 0, 0.02, 0.08, 0.1, 0.5, 1.0] ([], 0)
     = Inr (map (the \<circ> COLORS)
              [''enhance_strong'', ''enhance_strong'', ''enhance_weak'', ''enhance_weak'',
               ''suppress_weak'', ''suppress_weak'', ''suppress_weak'',
               ''suppress_strong'', ''suppress_strong'', ''suppress_strong''], 6)"
    by (simp add: color_step_def getitem_def COLORS_def)
  have len: "length cities = 10"
    by (simp add: cities_def)
  have fp: "float_mul (float64_round (3 / 5)) 100 = 60"
    using float_pct_6_10 by (simp add: float_pct_def)
  have res: "create_global_map_only COLORS cities
     = Inr \<lparr>points = zip cities (map (the \<circ> COLORS)
              [''enhance_strong'', ''enhance_strong'', ''enhance_weak'', ''enhance_weak'',
               ''suppress_weak'', ''suppress_weak'', ''suppress_weak'',
               ''suppress_strong'', ''suppress_strong'', ''suppress_strong'']),
             enhancement_pct = 60\<rparr>"
    by (simp only: create_global_map_only_def Let_def c2 srt loop)
      (simp add: len py_truediv_def fp)
  show ?thesis
    unfolding plot_global_map_conv res by (simp add: COLORS_def cities_def)
qed


text \<open>
  C7. Whenever \<open>create_global_map_only\<close> returns, the points were drawn in an order
  that is sorted ascending on the value column and is a permutation of the input rows,
  and the strong-positive points (value \<open>\<ge> 0.1\<close>) are the last ones drawn, all in the
  colour of \<open>suppress_strong\<close>. The function returns for every non-empty dataset when
  the colour table has the four map colours, and \<open>plot_global_map\<close> draws what
  \<open>create_global_map_only\<close> draws with the colour table of the repository.
\<close>

theorem rendering_order:
  "(\<forall>panel. create_global_map_only d spatial = Inr panel \<longrightarrow>
       sorted (column2 (map fst (points panel)))
     \<and> mset (map fst (points panel)) = mset spatial
     \<and> (\<exists>k. drop k (points panel) = filter (\<lambda>((lat, lon, v), c). 0.1 \<le> v) (points panel)
           \<and> map (Some \<circ> snd) (drop k (points panel))
               = replicate (length (points panel) - k) (d ''suppress_strong'')))
   \<and> (has_map_colors d \<and> spatial \<noteq> [] \<longrightarrow> (\<exists>panel. create_global_map_only d spatial = Inr panel))
   \<and> plot_global_map spatial = create_global_map_only COLORS spatial"
proof (intro conjI allI impI)
  fix panel
  assume r: "create_global_map_only d spatial = Inr panel"
  note p = create_global_map_only_Inr [OF r]
  show srt: "sorted (column2 (map fst (points panel)))"
    by (simp only: p(2) sorted_column2)
  show "mset (map fst (points panel)) = mset spatial"
    unfolding p(2) by (rule mset_take_rows_argsort) (simp add: column2_def)
  from p(3) have "map (Some \<circ> snd) (points panel)
      = map (\<lambda>v. d (category v)) (column2 (map fst (points panel)))"
    by (simp only: p(2))
  with srt show "\<exists>k. drop k (points panel)
         = filter (\<lambda>((lat, lon, v), c). 0.1 \<le> v) (points panel)
       \<and> map (Some \<circ> snd) (drop k (points panel))
           = replicate (length (points panel) - k) (d ''suppress_strong'')"
    by (rule drawn_order)
next
  assume "has_map_colors d \<and> spatial \<noteq> []"
  then show "\<exists>panel. create_global_map_only d spatial = Inr panel"
    by (simp add: create_global_map_only_eq)
next
  show "plot_global_map spatial = create_global_map_only COLORS spatial"
    by (rule plot_global_map_conv)
qed

theorem rendering_order_witness:
  "has_map_colors COLORS
   \<and> [(0, 0, 0.3), (10, 20, - 0.2), (30, 40, 0)] \<noteq> ([] :: row list)
   \<and> (\<exists>panel.
         create_global_map_only COLORS [(0, 0, 0.3), (10, 20, - 0.2), (30, 40, 0)] = Inr panel
       \<and> sorted (column2 (map fst (points panel)))
       \<and> mset (map fst (points panel)) = mset [(0, 0, 0.3), (10, 20, - 0.2), (30, 40, 0)]
       \<and> plot_global_map [(0, 0, 0.3), (10, 20, - 0.2), (30, 40, 0)] = Inr panel)"
proof -
  let ?xs = "[(0, 0, 0.3), (10, 20, - 0.2), (30, 40, 0)] :: row list"
  have h1: "has_map_colors COLORS"
    by (simp add: has_map_colors_def COLORS_def)
  have h2: "?xs \<noteq> []"
    by simp
  note t = rendering_order [of COLORS ?xs]
  from t h1 h2 obtain panel where p: "create_global_map_only COLORS ?xs = Inr panel"
    by blast
  with t have "sorted (column2 (map fst (points panel)))"
    and "mset (map fst (points panel)) = mset ?xs"
    by blast+
  moreover from t p have "plot_global_map ?xs = Inr panel"
    by simp
  ultimately show ?thesis
    using h1 h2 p by auto
qed

text \<open>
  C4, as the code has it. On an empty dataset both map functions raise
  \<open>ZeroDivisionError\<close>, from the division by the number of rows, before anything is
  drawn: no panel comes back. The statistics of an empty series are NaN, without an
  exception.
\<close>

theorem empty_dataset_zero_division:
  "create_global_map_only d [] = Inl ZeroDivisionError
   \<and> plot_global_map [] = Inl ZeroDivisionError
   \<and> series_mean [] = None \<and> series_min [] = None \<and> series_max [] = None"
  by (simp add: create_global_map_only_def plot_global_map_def take_rows_def argsort_def
      column2_def py_truediv_def series_mean_def)

text \<open>
  The empty dataset does not give \<open>DegenerateInputError\<close>: the division by zero is
  carried out and is the error.
\<close>

theorem empty_dataset_not_degenerate_input_error:
  "create_global_map_only COLORS [] \<noteq> Inl DegenerateInputError
   \<and> create_global_map_only COLORS [] = Inl ZeroDivisionError
   \<and> plot_global_map [] \<noteq> Inl DegenerateInputError
   \<and> plot_global_map [] = Inl ZeroDivisionError"
  by (simp add: create_global_map_only_def plot_global_map_def take_rows_def argsort_def
      column2_def py_truediv_def)

text \<open>
  C5, as the code has it. The mean of the twenty enhancement percentages is \<open>61.945\<close>,
  the minimum \<open>58.4\<close> and the maximum \<open>67.3\<close>.
\<close>

theorem temporal_stability_summary:
  "series_mean temporal_stability_enhancement_pct = Some 61.945
   \<and> series_min temporal_stability_enhancement_pct = Some 58.4
   \<and> series_max temporal_stability_enhancement_pct = Some 67.3"
  by (simp add: series_mean_def temporal_stability_enhancement_pct_def)

text \<open>The mean is not within \<open>0.01\<close> of \<open>61.63\<close>.\<close>

theorem temporal_stability_mean_not_61_63:
  "\<not> (\<exists>m. series_mean temporal_stability_enhancement_pct = Some m \<and> \<bar>m - 61.63\<bar> \<le> 0.01)"
  by (simp add: series_mean_def temporal_stability_enhancement_pct_def)

lemma no_pdf_prefix:
  assumes "\<not> sublist ''.pdf'' (c # b)"
  shows "take 4 (c # b @ ''.pdf'') \<noteq> ''.pdf''"
proof
  assume eq: "take 4 (c # b @ ''.pdf'') = ''.pdf''"
  show False
  proof (cases "3 \<le> length b")
    case True
    then have "take 4 (c # b @ ''.pdf'') = take 4 (c # b)" by simp
    with eq have "prefix ''.pdf'' (c # b)"
      by (metis take_is_prefix)
    with assms show False by (simp add: sublist_Cons_right)
  next
    case False
    then consider "b = []" | x where "b = [x]" | x y where "b = [x, y]"
      by (cases b; cases "tl b"; cases "tl (tl b)") auto
    then show False
      using eq by cases auto
  qed
qed

lemma replace_pdf_suffix:
  "\<not> sublist ''.pdf'' base
   \<Longrightarrow> replace_nonempty ''.pdf'' ''.png'' (base @ ''.pdf'') = base @ ''.png''"
proof (induction base)
  case Nil
  show ?case by simp
next
  case (Cons c b)
  from Cons.prems have nb: "\<not> sublist ''.pdf'' b"
    by (simp add: sublist_Cons_right)
  from no_pdf_prefix [OF Cons.prems]
  have "take (length ''.pdf'') ((c # b) @ ''.pdf'') \<noteq> ''.pdf''"
    by (simp add: eval_nat_numeral)
  then have "replace_nonempty ''.pdf'' ''.png'' ((c # b) @ ''.pdf'')
               = c # replace_nonempty ''.pdf'' ''.png'' (b @ ''.pdf'')"
    by (simp del: take_Suc_Cons)
  with Cons.IH [OF nb] show ?case by simp
qed

text \<open>
  C8, as the code has it. For an output path that ends in \<open>.pdf\<close> and has \<open>.pdf\<close>
  nowhere before that, one invocation saves the figure twice: at the path itself and at
  the path with \<open>.png\<close> in place of the final \<open>.pdf\<close>. The two paths are different and
  share the base.
\<close>

theorem pdf_and_png_paths:
  assumes "\<not> sublist ''.pdf'' base"
  shows "create_composite_figure (base @ ''.pdf'') = [base @ ''.pdf'', base @ ''.png'']
       \<and> base @ ''.pdf'' \<noteq> base @ ''.png''"
  using replace_pdf_suffix [OF assms]
  by (simp add: create_composite_figure_def str_replace_def)

theorem pdf_and_png_paths_witness:
  "\<not> sublist ''.pdf'' ''figures/figure1_composite''
   \<and> create_composite_figure ''figures/figure1_composite.pdf''
       = [''figures/figure1_composite.pdf'', ''figures/figure1_composite.png'']"
proof -
  have h: "\<not> sublist ''.pdf'' ''figures/figure1_composite''"
    by (simp add: sublist_Cons_right)
  show ?thesis
    using h pdf_and_png_paths [OF h] by simp
qed

text \<open>
  An output path without \<open>.pdf\<close> is saved twice at the same path, which leaves one file;
  a path with \<open>.pdf\<close> in a directory name gets its PNG in another directory.
\<close>

theorem one_file_for_svg_path:
  "create_composite_figure ''figure1.svg'' = [''figure1.svg'', ''figure1.svg'']
   \<and> card (set (create_composite_figure ''figure1.svg'')) = 1
   \<and> create_composite_figure ''out.pdf/figure1.pdf''
       = [''out.pdf/figure1.pdf'', ''out.png/figure1.png'']"
  by (simp add: create_composite_figure_def str_replace_def)

text \<open>
  C9. \<open>create_global_map_only\<close> leaves the array it is given as it was, and every other
  array of the caller too: the sorted rows go into a new array. On the array it is given
  it computes what the function on values computes.
\<close>

theorem input_array_unchanged:
  assumes "spatial_2020 < next_ref s"
  shows "heap (snd (create_global_map_only_ref d spatial_2020 s)) spatial_2020
           = heap s spatial_2020
       \<and> (\<forall>r < next_ref s. heap (snd (create_global_map_only_ref d spatial_2020 s)) r = heap s r)
       \<and> fst (create_global_map_only_ref d spatial_2020 s)
           = create_global_map_only d (heap s spatial_2020)"
  using assms
  by (auto simp: create_global_map_only_ref_def create_global_map_only_def alloc_def Let_def
      py_truediv_def split: sum.splits prod.splits)

theorem input_array_unchanged_witness:
  "(0 :: nat) < next_ref \<lparr>heap = (\<lambda>r. [])(0 := [(0, 0, 0.3), (10, 20, - 0.2), (30, 40, 0)]),
                         next_ref = 1\<rparr>
   \<and> heap (snd (create_global_map_only_ref COLORS 0
                  \<lparr>heap = (\<lambda>r. [])(0 := [(0, 0, 0.3), (10, 20, - 0.2), (30, 40, 0)]),
                   next_ref = 1\<rparr>)) 0
       = [(0, 0, 0.3), (10, 20, - 0.2), (30, 40, 0)]"
proof -
  let ?s = "\<lparr>heap = (\<lambda>r. [])(0 := [(0, 0, 0.3), (10, 20, - 0.2), (30, 40, 0)]),
             next_ref = 1\<rparr>"
  have h: "(0 :: nat) < next_ref ?s"
    by simp
  from input_array_unchanged [OF h, of COLORS]
  have "heap (snd (create_global_map_only_ref COLORS 0 ?s)) 0 = heap ?s 0"
    by blast
  with h show ?thesis
    by simp
qed

lemma dict_get_miss: "k \<notin> fst ` set d \<Longrightarrow> dict_get d k dflt = dflt"
proof -
  assume "k \<notin> fst ` set d"
  then have "map_of d k = None"
    by (simp add: map_of_eq_None_iff)
  then show ?thesis
    by (simp add: dict_get_def)
qed

lemma keys_labels: "fst ` set labels = {''low'', ''moderate'', ''other'', ''low_moderate'', ''all''}"
  by (simp add: labels_def insert_commute)

lemma keys_limits_urban_rural:
  "fst ` set limits_urban_rural = {''low'', ''moderate'', ''other'', ''low_moderate'', ''all''}"
  by (simp add: limits_urban_rural_def insert_commute)

lemma keys_limits_turban:
  "fst ` set limits_turban = {''low'', ''moderate'', ''other'', ''low_moderate'', ''all''}"
  by (simp add: limits_turban_def insert_commute)

text \<open>
  C6. For every category key that is not in the axis-limit table, and for either kind of
  data (the string \<open>urban_rural\<close> or any other string, which selects the urban-only
  table), \<open>get_y_axis_limits\<close> returns the default \<open>((0, 10), [0, 2, 4, 6, 8, 10])\<close>. The
  function has no failing branch: it is a total lookup.
\<close>

theorem get_y_axis_limits_default:
  assumes "intensity_key \<notin> {''low'', ''moderate'', ''other'', ''low_moderate'', ''all''}"
  shows "get_y_axis_limits intensity_key data_type = ((0, 10), [0, 2, 4, 6, 8, 10])"
proof (cases "data_type = ''urban_rural''")
  case True
  from assms have "intensity_key \<notin> fst ` set limits_urban_rural"
    unfolding keys_limits_urban_rural .
  then show ?thesis
    using True by (simp add: get_y_axis_limits_def dict_get_miss)
next
  case False
  from assms have "intensity_key \<notin> fst ` set limits_turban"
    unfolding keys_limits_turban .
  then show ?thesis
    using False by (simp add: get_y_axis_limits_def dict_get_miss)
qed

theorem get_y_axis_limits_default_witness:
  "''unknown_key'' \<notin> {''low'', ''moderate'', ''other'', ''low_moderate'', ''all''}
   \<and> get_y_axis_limits ''unknown_key'' ''urban_rural'' = ((0, 10), [0, 2, 4, 6, 8, 10])
   \<and> get_y_axis_limits ''unknown_key'' ''turban'' = ((0, 10), [0, 2, 4, 6, 8, 10])"
proof -
  have h: "''unknown_key'' \<notin> {''low'', ''moderate'', ''other'', ''low_moderate'', ''all''}"
    by simp
  show ?thesis
    using h get_y_axis_limits_default [OF h, of "''urban_rural''"]
      get_y_axis_limits_default [OF h, of "''turban''"]
    by simp
qed

text \<open>
  C10. For every intensity key other than \<open>low\<close>, \<open>moderate\<close>, \<open>other\<close>,
  \<open>low_moderate\<close> and \<open>all\<close>, \<open>get_intensity_label\<close> returns the key itself.
\<close>

theorem get_intensity_label_fallback:
  assumes "intensity_key \<notin> {''low'', ''moderate'', ''other'', ''low_moderate'', ''all''}"
  shows "get_intensity_label intensity_key = intensity_key"
proof -
  from assms have "intensity_key \<notin> fst ` set labels"
    unfolding keys_labels .
  then show ?thesis
    by (simp add: get_intensity_label_def dict_get_miss)
qed

theorem get_intensity_label_fallback_witness:
  "''heavy'' \<notin> {''low'', ''moderate'', ''other'', ''low_moderate'', ''all''}
   \<and> get_intensity_label ''heavy'' = ''heavy''"
proof -
  have h: "''heavy'' \<notin> {''low'', ''moderate'', ''other'', ''low_moderate'', ''all''}"
    by simp
  show ?thesis
    using h get_intensity_label_fallback [OF h] by simp
qed

end
